theory Spec2Isabelle
  imports Main "HOL-Library.Word" "HOL-Library.Signed_Division"
begin

section \<open>Go library functions used by the middlewares\<close>

text \<open>
  Go strings are byte sequences, so a Go string is a \<^typ>\<open>string\<close> (a list of 8-bit
  characters). The functions of this section are the parts of the Go standard library
  that the three middlewares call: \<^verbatim>\<open>strings\<close>, \<^verbatim>\<open>strconv\<close>, \<^verbatim>\<open>regexp\<close> (for the one
  pattern the package compiles), \<^verbatim>\<open>net/http\<close> and \<^verbatim>\<open>time\<close>.
\<close>

subsection \<open>strings\<close>

text \<open>\<^verbatim>\<open>strings.HasPrefix(s, prefix)\<close>: \<^verbatim>\<open>len(s) >= len(prefix) && s[:len(prefix)] == prefix\<close>.\<close>

definition HasPrefix :: "string \<Rightarrow> string \<Rightarrow> bool" where
  "HasPrefix s pre = (length pre \<le> length s \<and> take (length pre) s = pre)"

text \<open>\<^verbatim>\<open>strings.Contains(s, ",")\<close> and \<^verbatim>\<open>strings.Split(s, ",")\<close>, for a one-byte separator.\<close>

definition Contains :: "string \<Rightarrow> char \<Rightarrow> bool" where
  "Contains s c = (c \<in> set s)"

fun Split :: "string \<Rightarrow> char \<Rightarrow> string list" where
  "Split [] c = [[]]"
| "Split (x # xs) c =
     (if x = c then [] # Split xs c
      else (case Split xs c of [] \<Rightarrow> [[x]] | y # ys \<Rightarrow> (x # y) # ys))"

subsection \<open>strconv\<close>

definition digit_char :: "nat \<Rightarrow> char" where
  "digit_char d = ''0123456789abcdef'' ! (d mod 16)"

function nat_to_dec :: "nat \<Rightarrow> string" where
  "nat_to_dec n = (if n < 10 then [digit_char n] else nat_to_dec (n div 10) @ [digit_char (n mod 10)])"
  by pat_completeness auto
termination
  by (relation "measure id") auto

text \<open>\<^verbatim>\<open>strconv.Itoa\<close>, also what \<^verbatim>\<open>%d\<close> prints for an \<^verbatim>\<open>int\<close>.\<close>

definition Itoa :: "int \<Rightarrow> string" where
  "Itoa i = (if i < 0 then CHR ''-'' # nat_to_dec (nat (- i)) else nat_to_dec (nat i))"

text \<open>
  \<^verbatim>\<open>strconv.Quote\<close> returns a double-quoted Go string literal: the text between two
  double quotes, with the double quote and the backslash escaped by a backslash, the
  control characters written as escapes and printable ASCII left as it is. Bytes from
  0x80 are written \<^verbatim>\<open>\xNN\<close> here, which is what Go does for a byte that is not part of a
  valid UTF-8 sequence (a printable non-ASCII rune is kept by Go); the one string the
  package quotes is ASCII.
\<close>

definition dquote :: char where
  "dquote = CHR 0x22"

definition backslash :: char where
  "backslash = CHR 0x5C"

definition quote_byte :: "char \<Rightarrow> string" where
  "quote_byte c =
     (let n = (of_char c :: nat) in
      if c = dquote then [backslash, dquote]
      else if c = backslash then [backslash, backslash]
      else if n = 7 then [backslash, CHR ''a'']
      else if n = 8 then [backslash, CHR ''b'']
      else if n = 12 then [backslash, CHR ''f'']
      else if n = 10 then [backslash, CHR ''n'']
      else if n = 13 then [backslash, CHR ''r'']
      else if n = 9 then [backslash, CHR ''t'']
      else if n = 11 then [backslash, CHR ''v'']
      else if 32 \<le> n \<and> n < 127 then [c]
      else [backslash, CHR ''x'', digit_char (n div 16), digit_char (n mod 16)])"

definition Quote :: "string \<Rightarrow> string" where
  "Quote s = dquote # concat (map quote_byte s) @ [dquote]"

subsection \<open>regexp: the pattern \<^verbatim>\<open>^\w+\[(\w+)\]$\<close>\<close>

text \<open>\<^verbatim>\<open>\w\<close> is \<^verbatim>\<open>[0-9A-Za-z_]\<close> in Go's syntax.\<close>

definition is_word :: "char \<Rightarrow> bool" where
  "is_word c =
     (let n = (of_char c :: nat) in
      (48 \<le> n \<and> n \<le> 57) \<or> (65 \<le> n \<and> n \<le> 90) \<or> n = 95 \<or> (97 \<le> n \<and> n \<le> 122))"

text \<open>
  The submatch of the one capture group when the whole string matches: a non-empty run
  of word characters, an opening bracket, a non-empty run of word characters (the
  group), a closing bracket, and then the end of the text.
\<close>

definition bracket_sub :: "string \<Rightarrow> string option" where
  "bracket_sub k =
     (if takeWhile is_word k = [] then None
      else (case dropWhile is_word k of
              [] \<Rightarrow> None
            | c # rest \<Rightarrow>
                if c = CHR ''['' \<and> takeWhile is_word rest \<noteq> [] \<and> dropWhile is_word rest = '']''
                then Some (takeWhile is_word rest) else None))"

text \<open>
  \<^verbatim>\<open>qregx.FindStringSubmatch(k)\<close>: \<^verbatim>\<open>nil\<close> when there is no match, else the slice of the
  whole match and the group.
\<close>

definition FindStringSubmatch :: "string \<Rightarrow> string list option" where
  "FindStringSubmatch k = map_option (\<lambda>sub. [k, sub]) (bracket_sub k)"

subsection \<open>net/http\<close>

text \<open>
  \<^verbatim>\<open>http.CanonicalHeaderKey\<close>: a key made of header-field (token) bytes only gets its
  first letter and every letter after a hyphen in upper case and the others in lower
  case; any other key is returned as it is.
\<close>

definition validHeaderFieldByte :: "char \<Rightarrow> bool" where
  "validHeaderFieldByte c =
     (let n = (of_char c :: nat) in
      n = 33 \<or> (35 \<le> n \<and> n \<le> 39) \<or> n = 42 \<or> n = 43 \<or> n = 45 \<or> n = 46 \<or>
      (48 \<le> n \<and> n \<le> 57) \<or> (65 \<le> n \<and> n \<le> 90) \<or> (94 \<le> n \<and> n \<le> 122) \<or>
      n = 124 \<or> n = 126)"

definition canonical_byte :: "bool \<Rightarrow> char \<Rightarrow> char" where
  "canonical_byte upper c =
     (let n = (of_char c :: nat) in
      if upper \<and> 97 \<le> n \<and> n \<le> 122 then char_of (n - 32)
      else if \<not> upper \<and> 65 \<le> n \<and> n \<le> 90 then char_of (n + 32)
      else c)"

fun canonical_loop :: "bool \<Rightarrow> string \<Rightarrow> string" where
  "canonical_loop upper [] = []"
| "canonical_loop upper (c # cs) =
     canonical_byte upper c # canonical_loop (canonical_byte upper c = CHR ''-'') cs"

definition CanonicalHeaderKey :: "string \<Rightarrow> string" where
  "CanonicalHeaderKey s = (if list_all validHeaderFieldByte s then canonical_loop True s else s)"

text \<open>
  \<^verbatim>\<open>http.Header\<close> is a \<^verbatim>\<open>map[string][]string\<close>; a key that is absent reads as the empty
  slice. \<^verbatim>\<open>Header.Get\<close> canonicalises the key and returns the first value, or the empty
  string.
\<close>

type_synonym Header = "string \<Rightarrow> string list"

definition Get :: "Header \<Rightarrow> string \<Rightarrow> string" where
  "Get h key = (case h (CanonicalHeaderKey key) of [] \<Rightarrow> [] | v # _ \<Rightarrow> v)"

text \<open>The status codes the package names.\<close>

definition StatusBadRequest :: int where
  "StatusBadRequest = 400"

definition StatusNotAcceptable :: int where
  "StatusNotAcceptable = 406"

definition StatusUnsupportedMediaType :: int where
  "StatusUnsupportedMediaType = 415"

definition StatusInternalServerError :: int where
  "StatusInternalServerError = 500"

text \<open>
  The error document of \<^verbatim>\<open>api2go\<close>: \<^verbatim>\<open>api2go.Error\<close> with the four fields the package
  fills in, and \<^verbatim>\<open>api2go.HTTPError\<close> with its list \<^verbatim>\<open>Errors\<close>. The response body is kept
  as the sequence of things written: a JSON encoding of an error document, or text.
\<close>

record api2go_Error =
  Status :: string
  Title :: string
  Detail :: string
  Meta :: "(string \<times> string) list"

datatype chunk = JSON_HTTPError "api2go_Error list" | Text string

text \<open>
  An \<^verbatim>\<open>http.ResponseWriter\<close>, by the contract of the interface. \<open>w_header\<close> is the map
  that \<^verbatim>\<open>w.Header()\<close> returns. \<^verbatim>\<open>WriteHeader\<close> sends the status line together with the
  header map as it is at that moment (\<open>w_status\<close>, \<open>w_sent\<close>); a second call is
  superfluous and has no effect, and changing the header map afterwards has no effect
  on the response. \<^verbatim>\<open>Write\<close> sends the header with status 200 first when none was
  sent. \<open>w_fail\<close> is the environment of the writer: \<open>Some e\<close> when writing to the
  connection fails with the error message \<open>e\<close>.
\<close>

record response_writer =
  w_header :: "string \<rightharpoonup> string"
  w_status :: "int option"
  w_sent :: "string \<rightharpoonup> string"
  w_body :: "chunk list"
  w_fail :: "string option"

definition Header_Set :: "response_writer \<Rightarrow> string \<Rightarrow> string \<Rightarrow> response_writer" where
  "Header_Set w key val = w\<lparr>w_header := (w_header w)(CanonicalHeaderKey key \<mapsto> val)\<rparr>"

definition WriteHeader :: "response_writer \<Rightarrow> int \<Rightarrow> response_writer" where
  "WriteHeader w code =
     (case w_status w of
        Some _ \<Rightarrow> w
      | None \<Rightarrow> w\<lparr>w_status := Some code, w_sent := w_header w\<rparr>)"

definition Write :: "response_writer \<Rightarrow> chunk \<Rightarrow> response_writer \<times> string option" where
  "Write w c =
     (let w' = (if w_status w = None then WriteHeader w 200 else w)
      in case w_fail w' of
           Some e \<Rightarrow> (w', Some e)
         | None \<Rightarrow> (w'\<lparr>w_body := w_body w' @ [c]\<rparr>, None))"

text \<open>
  \<^verbatim>\<open>http.Error(w, error, code)\<close>: sets the plain-text content type, calls
  \<^verbatim>\<open>WriteHeader(code)\<close> and prints the message and a newline, ignoring a write error.
\<close>

definition http_Error :: "response_writer \<Rightarrow> string \<Rightarrow> int \<Rightarrow> response_writer" where
  "http_Error w msg code =
     (let w1 = Header_Set w ''Content-Type'' ''text/plain; charset=utf-8'';
          w2 = Header_Set w1 ''X-Content-Type-Options'' ''nosniff'';
          w3 = WriteHeader w2 code
      in fst (Write w3 (Text (msg @ [CHR 0x0A]))))"

subsection \<open>time\<close>

text \<open>
  A \<^verbatim>\<open>time.Duration\<close> is a signed 64-bit count of nanoseconds, and its arithmetic wraps.
  \<^verbatim>\<open>Duration.Seconds\<close> is taken in whole seconds, the division truncating as Go's does.
\<close>

type_synonym Duration = "64 word"

definition Hour :: Duration where
  "Hour = 3600000000000"

definition Seconds :: "Duration \<Rightarrow> int" where
  "Seconds d = (sint d) sdiv 1000000000"

text \<open>
  A \<^verbatim>\<open>time.Time\<close> in UTC is its number of seconds since the Unix epoch.
  \<^verbatim>\<open>t.Format(http.TimeFormat)\<close> prints the layout \<^verbatim>\<open>Mon, 02 Jan 2006 15:04:05 GMT\<close>.
  The date of a day number is computed in the proleptic Gregorian calendar, in eras of
  400 years that start on 1 March.
\<close>

type_synonym Time = int

definition civil_from_days :: "int \<Rightarrow> int \<times> int \<times> int" where
  "civil_from_days z0 =
     (let z = z0 + 719468;
          era = z div 146097;
          doe = z mod 146097;
          yoe = (doe - doe div 1460 + doe div 36524 - doe div 146096) div 365;
          doy = doe - (365 * yoe + yoe div 4 - yoe div 100);
          mp = (5 * doy + 2) div 153;
          d = doy - (153 * mp + 2) div 5 + 1;
          m = (if mp < 10 then mp + 3 else mp - 9);
          y = yoe + era * 400 + (if m \<le> 2 then 1 else 0)
      in (y, m, d))"

definition pad :: "nat \<Rightarrow> int \<Rightarrow> string" where
  "pad width i =
     (let ds = nat_to_dec (nat \<bar>i\<bar>)
      in (if i < 0 then ''-'' else []) @ replicate (width - length ds) (CHR ''0'') @ ds)"

definition day_names :: "string list" where
  "day_names = [''Sun'', ''Mon'', ''Tue'', ''Wed'', ''Thu'', ''Fri'', ''Sat'']"

definition month_names :: "string list" where
  "month_names = [''Jan'', ''Feb'', ''Mar'', ''Apr'', ''May'', ''Jun'',
                  ''Jul'', ''Aug'', ''Sep'', ''Oct'', ''Nov'', ''Dec'']"

definition Format_TimeFormat :: "Time \<Rightarrow> string" where
  "Format_TimeFormat t =
     (let days = t div 86400;
          secs = t mod 86400;
          (y, m, d) = civil_from_days days
      in day_names ! nat ((days + 4) mod 7) @ '', '' @ pad 2 d @ '' '' @
         month_names ! nat (m - 1) @ '' '' @ pad 4 y @ '' '' @
         pad 2 (secs div 3600) @ '':'' @ pad 2 (secs mod 3600 div 60) @ '':'' @
         pad 2 (secs mod 60) @ '' GMT'')"

text \<open>\<^verbatim>\<open>t.Add(d)\<close> for a duration of whole seconds.\<close>

definition Add :: "Time \<Rightarrow> Duration \<Rightarrow> Time" where
  "Add t d = t + Seconds d"

section \<open>Package query\<close>

text \<open>
  \<^verbatim>\<open>Params\<close>, the container of the parsed query parameters. \<^verbatim>\<open>newParams\<close> makes the two
  maps empty and leaves \<^verbatim>\<open>Includes\<close> nil and the three flags false.
\<close>

record Params =
  Includes :: "string list"
  Fields :: "string \<rightharpoonup> string list"
  Filters :: "string \<rightharpoonup> string"
  HasFields :: bool
  HasIncludes :: bool
  HasFilters :: bool

definition newParams :: Params where
  "newParams = \<lparr>Includes = [], Fields = Map.empty, Filters = Map.empty,
                 HasFields = False, HasIncludes = False, HasFilters = False\<rparr>"

text \<open>
  The request, as far as the middleware reads it: \<open>URL_Query\<close> is the result of
  \<^verbatim>\<open>r.URL.Query()\<close>, the keys with their value slices, listed in the order in which the
  \<^verbatim>\<open>range\<close> loop visits them (Go leaves the order of a map iteration open, so the list
  may be in any order); \<open>Header\<close> is \<^verbatim>\<open>r.Header\<close>; \<open>Context\<close> is the request context, a
  map from context keys to the values stored under them.
\<close>

record request =
  URL_Query :: "(string \<times> string list) list"
  Header :: Header
  Context :: "string \<rightharpoonup> Params"

definition ContextKeyQueryParams :: string where
  "ContextKeyQueryParams = ''jsparams''"

definition acceptH :: string where
  "acceptH = CanonicalHeaderKey ''accept''"

definition contentType :: string where
  "contentType = CanonicalHeaderKey ''content-type''"

definition filterMediaType :: string where
  "filterMediaType =
     Quote (''application/vnd.api+json; supported-ext='' @ [dquote] @
            ''dictybase/filtering-resouce'' @ [dquote])"

text \<open>
  \<^verbatim>\<open>queryParamError\<close>: sets the content type in the header map, writes the status, encodes
  the error document to the writer, and on an encoding error calls \<^verbatim>\<open>http.Error\<close>.
  Encoding this document (strings only) fails only when the write fails.
\<close>

definition queryParamError :: "response_writer \<Rightarrow> int \<Rightarrow> string \<Rightarrow> string \<Rightarrow> response_writer" where
  "queryParamError w status title detail =
     (let w1 = Header_Set w ''Content-Type'' ''application/vnd.api+json'';
          w2 = WriteHeader w1 status;
          jsnErr = \<lparr>Status = Itoa status, Title = title, Detail = detail,
                    Meta = [(''creator'', ''query middleware'')]\<rparr>
      in case Write w2 (JSON_HTTPError [jsnErr]) of
           (w3, None) \<Rightarrow> w3
         | (w3, Some err) \<Rightarrow> http_Error w3 err StatusInternalServerError)"

definition validateHeader :: "response_writer \<Rightarrow> request \<Rightarrow> response_writer \<times> bool" where
  "validateHeader w r =
     (if Get (Header r) acceptH \<noteq> filterMediaType then
        (queryParamError w StatusNotAcceptable ''Accept header is not acceptable''
           (''The given Accept header value '' @ Get (Header r) acceptH @
            '' is incorrect for filter query extension''), False)
      else if Get (Header r) acceptH \<noteq> Get (Header r) contentType then
        (queryParamError w StatusUnsupportedMediaType ''Media type is not supported''
           (''The given media type '' @ Get (Header r) contentType @
            '' in Content-Type header is not supported''), False)
      else (w, True))"

text \<open>\<^verbatim>\<open>v[0]\<close>, which panics on an empty slice.\<close>

definition index0 :: "'a list \<Rightarrow> 'a option" where
  "index0 v = (case v of [] \<Rightarrow> None | x # _ \<Rightarrow> Some x)"

text \<open>The value of \<^verbatim>\<open>include\<close> and of a \<^verbatim>\<open>fields\<close> key: split when it has a comma.\<close>

definition comma_list :: "string \<Rightarrow> string list" where
  "comma_list v0 = (if Contains v0 (CHR '','') then Split v0 (CHR '','') else [v0])"

text \<open>
  What one pass through the body of the \<^verbatim>\<open>range\<close> loop does: go on with the updated
  parameters, \<^verbatim>\<open>return\<close> after an error response was written, or panic on \<^verbatim>\<open>v[0]\<close>.
\<close>

datatype flow = Continue Params | Return response_writer | PanicIndex

definition loop_body :: "response_writer \<Rightarrow> request \<Rightarrow> string \<Rightarrow> string list \<Rightarrow> Params \<Rightarrow> flow" where
  "loop_body w r k v params =
     (if HasPrefix k ''filter'' then
        (case validateHeader w r of
           (w', ok) \<Rightarrow>
             if \<not> ok then Return w'
             else (case FindStringSubmatch k of
                     Some m \<Rightarrow>
                       (case index0 v of
                          None \<Rightarrow> PanicIndex
                        | Some v0 \<Rightarrow>
                            Continue (params\<lparr>Filters := (Filters params)(m ! 1 \<mapsto> v0),
                                             HasFilters := True\<rparr>))
                   | None \<Rightarrow>
                       (case index0 v of
                          None \<Rightarrow> PanicIndex
                        | Some v0 \<Rightarrow>
                            Return (queryParamError w' StatusBadRequest ''Invalid query parameter''
                                      (''Unable to match filter query param '' @ v0)))))
      else if HasPrefix k ''fields'' then
        (case FindStringSubmatch k of
           Some m \<Rightarrow>
             (case index0 v of
                None \<Rightarrow> PanicIndex
              | Some v0 \<Rightarrow>
                  Continue (params\<lparr>Fields := (Fields params)(m ! 1 \<mapsto> comma_list v0),
                                   HasFields := True\<rparr>))
         | None \<Rightarrow>
             (case index0 v of
                None \<Rightarrow> PanicIndex
              | Some v0 \<Rightarrow>
                  Return (queryParamError w StatusBadRequest ''Invalid query parameter''
                            (''Unable to match fields query param '' @ v0))))
      else if k = ''include'' then
        (case index0 v of
           None \<Rightarrow> PanicIndex
         | Some v0 \<Rightarrow> Continue (params\<lparr>Includes := comma_list v0, HasIncludes := True\<rparr>))
      else Continue params)"

text \<open>The loop over the entries; \<open>Continue\<close> is falling out of the loop.\<close>

fun range_loop :: "response_writer \<Rightarrow> request \<Rightarrow> (string \<times> string list) list \<Rightarrow> Params \<Rightarrow> flow" where
  "range_loop w r [] params = Continue params"
| "range_loop w r ((k, v) # rest) params =
     (case loop_body w r k v params of
        Continue params' \<Rightarrow> range_loop w r rest params'
      | Return w' \<Rightarrow> Return w'
      | PanicIndex \<Rightarrow> PanicIndex)"

text \<open>
  What the function that \<^verbatim>\<open>MiddlewareFn\<close> returns does with a request: it responds
  itself and returns, it panics, or it calls the wrapped handler \<^verbatim>\<open>fn\<close> with a writer
  and a request.
\<close>

datatype action = Respond response_writer | Crash | CallNext response_writer request

definition newFn :: "response_writer \<Rightarrow> request \<Rightarrow> action" where
  "newFn w r =
     (case range_loop w r (URL_Query r) newParams of
        Return w' \<Rightarrow> Respond w'
      | PanicIndex \<Rightarrow> Crash
      | Continue params \<Rightarrow>
          if HasFilters params \<or> HasFields params \<or> HasIncludes params
          then CallNext w (r\<lparr>Context := (Context r)(ContextKeyQueryParams \<mapsto> params)\<rparr>)
          else CallNext w r)"

text \<open>A handler ends with the response it wrote, or panics.\<close>

datatype served = Panicked | Served response_writer

type_synonym HandlerFunc = "response_writer \<Rightarrow> request \<Rightarrow> served"

definition MiddlewareFn :: "HandlerFunc \<Rightarrow> HandlerFunc" where
  "MiddlewareFn fn w r =
     (case newFn w r of
        Respond w' \<Rightarrow> Served w'
      | Crash \<Rightarrow> Panicked
      | CallNext w' r' \<Rightarrow> fn w' r')"

section \<open>Package cache\<close>

text \<open>
  The constructor that takes the number \<^verbatim>\<open>day\<close> and the time \<^verbatim>\<open>t\<close>:
  \<^verbatim>\<open>duration := time.Hour * 24 * 30 * day\<close>, \<^verbatim>\<open>MaxAge\<close> the seconds of the duration and
  \<^verbatim>\<open>Expires\<close> the time \<^verbatim>\<open>t\<close> in the HTTP format.
  The number \<^verbatim>\<open>day\<close> enters the product as a \<^verbatim>\<open>Duration\<close>, so the product wraps at
  64 bits.
\<close>

record HTTPCache =
  MaxAge :: int
  Expires :: string

definition NewHTTPCache :: "Duration \<Rightarrow> Time \<Rightarrow> HTTPCache" where
  "NewHTTPCache day t =
     (let duration = Hour * 24 * 30 * day
      in \<lparr>MaxAge = Seconds duration, Expires = Format_TimeFormat t\<rparr>)"

definition Handler :: "HTTPCache \<Rightarrow> HandlerFunc \<Rightarrow> HandlerFunc" where
  "Handler c next w r =
     next (Header_Set (Header_Set w ''Cache-Control'' (''public, max-age='' @ Itoa (MaxAge c)))
             ''Expires'' (Expires c)) r"

section \<open>Vocabulary of the properties\<close>

text \<open>
  The keys the loop acts on, and the keys it rejects: a key that starts with
  \<^verbatim>\<open>filter\<close> or \<^verbatim>\<open>fields\<close> and does not match the bracket pattern.
\<close>

definition recognized :: "string \<Rightarrow> bool" where
  "recognized k = (HasPrefix k ''filter'' \<or> HasPrefix k ''fields'' \<or> k = ''include'')"

definition malformed :: "string \<Rightarrow> bool" where
  "malformed k =
     ((HasPrefix k ''filter'' \<or> HasPrefix k ''fields'') \<and> FindStringSubmatch k = None)"


text \<open>Reading an outcome: the status of the response, and what the wrapped handler gets.\<close>

definition responded_status :: "action \<Rightarrow> int option" where
  "responded_status a = (case a of Respond w \<Rightarrow> w_status w | _ \<Rightarrow> None)"

definition responded_body :: "action \<Rightarrow> chunk list" where
  "responded_body a = (case a of Respond w \<Rightarrow> w_body w | _ \<Rightarrow> [])"

definition invokes_next :: "action \<Rightarrow> bool" where
  "invokes_next a = (case a of CallNext w r \<Rightarrow> True | _ \<Rightarrow> False)"

definition attached_bundle :: "action \<Rightarrow> Params option" where
  "attached_bundle a =
     (case a of CallNext w r \<Rightarrow> Context r ContextKeyQueryParams | _ \<Rightarrow> None)"

definition attached_filter :: "action \<Rightarrow> string \<Rightarrow> string option" where
  "attached_filter a sub = (case attached_bundle a of Some p \<Rightarrow> Filters p sub | None \<Rightarrow> None)"

text \<open>The error document of a response, with the fields \<^verbatim>\<open>queryParamError\<close> fills in.\<close>

definition error_document :: "int \<Rightarrow> string \<Rightarrow> string \<Rightarrow> chunk" where
  "error_document status title detail =
     JSON_HTTPError [\<lparr>Status = Itoa status, Title = title, Detail = detail,
                      Meta = [(''creator'', ''query middleware'')]\<rparr>]"

text \<open>
  Concrete inputs: a writer to which nothing was written yet, a request with a given
  query and given headers (one value each) and an empty context, and the media type as
  the documentation of the filter extension writes it, without the Go quoting.
\<close>

definition fresh_writer :: response_writer where
  "fresh_writer = \<lparr>w_header = Map.empty, w_status = None, w_sent = Map.empty,
                    w_body = [], w_fail = None\<rparr>"

definition request_with :: "(string \<times> string list) list \<Rightarrow> (string \<times> string) list \<Rightarrow> request" where
  "request_with q hs =
     \<lparr>URL_Query = q,
      Header = (\<lambda>k. case map_of hs k of None \<Rightarrow> [] | Some v \<Rightarrow> [v]),
      Context = Map.empty\<rparr>"

definition documented_media_type :: string where
  "documented_media_type =
     ''application/vnd.api+json; supported-ext='' @ [dquote] @
     ''dictybase/filtering-resouce'' @ [dquote]"

section \<open>Facts about the library functions and the constants\<close>

text \<open>
  The matcher agrees with the pattern \<^verbatim>\<open>^\w+\[(\w+)\]$\<close>: it finds a group exactly for the
  strings made of a non-empty word, an opening bracket, a non-empty word (the group)
  and a closing bracket. \<^verbatim>\<open>Split\<close> cuts at each separator.
\<close>

lemma not_word_brackets: "\<not> is_word (CHR ''['')" "\<not> is_word (CHR '']'')"
  by (simp_all add: is_word_def)

lemma bracket_sub_iff:
  "bracket_sub k = Some s \<longleftrightarrow>
     (\<exists>w. w \<noteq> [] \<and> s \<noteq> [] \<and> list_all is_word w \<and> list_all is_word s \<and>
          k = w @ ''['' @ s @ '']'')"
proof
  assume a: "bracket_sub k = Some s"
  let ?w = "takeWhile is_word k"
  from a have w: "?w \<noteq> []"
    by (auto simp: bracket_sub_def split: if_splits)
  from a w obtain rest where d: "dropWhile is_word k = CHR ''['' # rest"
    and s: "takeWhile is_word rest = s" "s \<noteq> []" and e: "dropWhile is_word rest = '']''"
    by (auto simp: bracket_sub_def split: if_splits list.splits)
  have "k = ?w @ dropWhile is_word k" by simp
  also have "dropWhile is_word k = CHR ''['' # (takeWhile is_word rest @ dropWhile is_word rest)"
    using d by simp
  finally have "k = ?w @ ''['' @ s @ '']''"
    using s e by simp
  moreover have "list_all is_word ?w" "list_all is_word s"
    using s(1) by (auto simp: list_all_iff dest: set_takeWhileD)
  ultimately show "\<exists>w. w \<noteq> [] \<and> s \<noteq> [] \<and> list_all is_word w \<and> list_all is_word s \<and>
          k = w @ ''['' @ s @ '']''"
    using w s(2) by blast
next
  assume "\<exists>w. w \<noteq> [] \<and> s \<noteq> [] \<and> list_all is_word w \<and> list_all is_word s \<and>
          k = w @ ''['' @ s @ '']''"
  then obtain w where w: "w \<noteq> []" "s \<noteq> []" "list_all is_word w" "list_all is_word s"
    and k: "k = w @ CHR ''['' # s @ '']''"
    by auto
  have t1: "takeWhile is_word k = w" and d1: "dropWhile is_word k = CHR ''['' # s @ '']''"
    using w(3) not_word_brackets
    by (simp_all add: k list_all_iff takeWhile_append2 dropWhile_append2)
  have t2: "takeWhile is_word (s @ '']'') = s" and d2: "dropWhile is_word (s @ '']'') = '']''"
    using w(4) not_word_brackets
    by (simp_all add: list_all_iff takeWhile_append2 dropWhile_append2)
  show "bracket_sub k = Some s"
    using w(1,2) by (simp add: bracket_sub_def t1 d1 t2 d2)
qed

lemma Split_no_separator: "c \<notin> set s \<Longrightarrow> Split s c = [s]"
  by (induction s) auto

lemma Split_nonempty: "Split s c \<noteq> []"
  by (induction s) (auto split: list.splits)

lemma Split_append_separator:
  "c \<notin> set a \<Longrightarrow> Split (a @ c # b) c = a # Split b c"
  using Split_nonempty [of b c]
  by (induction a) (auto split: list.splits)

lemma acceptH_eq: "acceptH = ''Accept''"
  unfolding acceptH_def by code_simp

lemma contentType_eq: "contentType = ''Content-Type''"
  unfolding contentType_def by code_simp

lemma canonical_Content_Type: "CanonicalHeaderKey ''Content-Type'' = ''Content-Type''"
  by code_simp

lemma canonical_Accept: "CanonicalHeaderKey ''Accept'' = ''Accept''"
  by code_simp

lemma canonical_X_Content_Type_Options:
  "CanonicalHeaderKey ''X-Content-Type-Options'' = ''X-Content-Type-Options''"
  by code_simp

lemma filterMediaType_eq:
  "filterMediaType =
     [dquote] @ ''application/vnd.api+json; supported-ext='' @ [backslash, dquote] @
     ''dictybase/filtering-resouce'' @ [backslash, dquote, dquote]"
  unfolding filterMediaType_def by code_simp

lemma filterMediaType_not_documented: "filterMediaType \<noteq> documented_media_type"
  by code_simp

lemma Itoa_400: "Itoa 400 = ''400''"
  by (simp add: Itoa_def digit_char_def)
lemma Itoa_406: "Itoa 406 = ''406''"
  by (simp add: Itoa_def digit_char_def)
lemma Itoa_415: "Itoa 415 = ''415''"
  by (simp add: Itoa_def digit_char_def)

lemma queryParamError_status:
  "w_status (queryParamError w st title detail) = Some (case w_status w of None \<Rightarrow> st | Some s \<Rightarrow> s)"
  by (simp add: queryParamError_def Write_def WriteHeader_def Header_Set_def http_Error_def Let_def
           split: option.splits prod.splits)

lemma queryParamError_sent:
  "w_status w = None \<Longrightarrow>
   w_sent (queryParamError w st title detail) =
     (w_header w)(''Content-Type'' \<mapsto> ''application/vnd.api+json'')"
  by (simp add: queryParamError_def Write_def WriteHeader_def Header_Set_def http_Error_def Let_def
                canonical_Content_Type
           split: option.splits prod.splits)

lemma queryParamError_body:
  "w_status w = None \<Longrightarrow> w_fail w = None \<Longrightarrow>
   w_body (queryParamError w st title detail) = w_body w @ [error_document st title detail]"
  by (simp add: queryParamError_def Write_def WriteHeader_def Header_Set_def http_Error_def Let_def
                error_document_def
           split: option.splits prod.splits)

lemma queryParamError_failed_write:
  "w_status w = None \<Longrightarrow> w_fail w = Some e \<Longrightarrow>
   w_status (queryParamError w st title detail) = Some st \<and>
   w_sent (queryParamError w st title detail) ''Content-Type'' = Some ''application/vnd.api+json'' \<and>
   w_body (queryParamError w st title detail) = w_body w"
  by (simp add: queryParamError_def Write_def WriteHeader_def Header_Set_def http_Error_def Let_def
                canonical_Content_Type
           split: option.splits prod.splits)

section \<open>Facts about the loop of the query middleware\<close>

lemma validateHeader_wrong_accept:
  "Get (Header r) acceptH \<noteq> filterMediaType \<Longrightarrow>
   validateHeader w r =
     (queryParamError w StatusNotAcceptable ''Accept header is not acceptable''
        (''The given Accept header value '' @ Get (Header r) acceptH @
         '' is incorrect for filter query extension''), False)"
  by (simp add: validateHeader_def)


lemma validateHeader_valid:
  "Get (Header r) acceptH = filterMediaType \<Longrightarrow>
   Get (Header r) contentType = filterMediaType \<Longrightarrow>
   validateHeader w r = (w, True)"
  by (simp add: validateHeader_def)

lemma validateHeader_True: "snd (validateHeader w r) \<Longrightarrow> fst (validateHeader w r) = w"
  by (simp add: validateHeader_def split: if_splits)

lemma loop_body_filter_invalid:
  "HasPrefix k ''filter'' \<Longrightarrow> \<not> snd (validateHeader w r) \<Longrightarrow>
   loop_body w r k v p = Return (fst (validateHeader w r))"
  by (cases "validateHeader w r") (simp add: loop_body_def)

lemma loop_body_unrecognized: "\<not> recognized k \<Longrightarrow> loop_body w r k v p = Continue p"
  by (simp add: loop_body_def recognized_def)

lemma loop_body_malformed: "malformed k \<Longrightarrow> loop_body w r k v p \<noteq> Continue p'"
  by (auto simp: loop_body_def malformed_def split: prod.splits option.splits)

lemma loop_body_Continue:
  "\<not> malformed k \<Longrightarrow> (recognized k \<longrightarrow> v \<noteq> []) \<Longrightarrow>
   (HasPrefix k ''filter'' \<longrightarrow> snd (validateHeader w r)) \<Longrightarrow>
   \<exists>p'. loop_body w r k v p = Continue p'"
  by (cases "validateHeader w r")
     (auto simp: loop_body_def malformed_def recognized_def index0_def
           split: option.splits list.splits)

lemma range_loop_append:
  "range_loop w r (xs @ ys) p =
     (case range_loop w r xs p of
        Continue p' \<Rightarrow> range_loop w r ys p'
      | Return w' \<Rightarrow> Return w'
      | PanicIndex \<Rightarrow> PanicIndex)"
  by (induction xs arbitrary: p) (auto split: flow.splits)



lemma range_loop_malformed_stops:
  "(k, v) \<in> set q \<Longrightarrow> malformed k \<Longrightarrow> range_loop w r q p \<noteq> Continue p'"
proof (induction q arbitrary: p)
  case Nil
  then show ?case by simp
next
  case (Cons e q)
  obtain k0 v0 where e: "e = (k0, v0)" by (cases e)
  show ?case
  proof (cases "e = (k, v)")
    case True
    then show ?thesis
      using Cons.prems e loop_body_malformed [of k w r v p] by (auto split: flow.splits)
  next
    case False
    with Cons.prems have "(k, v) \<in> set q" by simp
    from Cons.IH [OF this Cons.prems(2)] show ?thesis
      by (simp add: e split: flow.splits)
  qed
qed


lemma range_loop_Continue:
  "\<forall>(k, v) \<in> set q. \<not> malformed k \<and> (recognized k \<longrightarrow> v \<noteq> []) \<Longrightarrow>
   (\<exists>(k, v) \<in> set q. HasPrefix k ''filter'') \<longrightarrow> snd (validateHeader w r) \<Longrightarrow>
   \<exists>p'. range_loop w r q p = Continue p'"
proof (induction q arbitrary: p)
  case Nil
  then show ?case by simp
next
  case (Cons e q)
  obtain k v where e: "e = (k, v)" by (cases e)
  from Cons.prems have "\<not> malformed k" "recognized k \<longrightarrow> v \<noteq> []"
    "HasPrefix k ''filter'' \<longrightarrow> snd (validateHeader w r)"
    by (auto simp: e)
  from loop_body_Continue [OF this] obtain p1 where p1: "loop_body w r k v p = Continue p1"
    by blast
  from Cons.prems have "\<forall>(k, v) \<in> set q. \<not> malformed k \<and> (recognized k \<longrightarrow> v \<noteq> [])"
    "(\<exists>(k, v) \<in> set q. HasPrefix k ''filter'') \<longrightarrow> snd (validateHeader w r)"
    by auto
  from Cons.IH [OF this] obtain p' where "range_loop w r q p1 = Continue p'"
    by blast
  with p1 show ?case by (simp add: e)
qed

lemma loop_body_malformed_Return:
  "malformed k \<Longrightarrow> HasPrefix k ''filter'' \<longrightarrow> snd (validateHeader w r) \<Longrightarrow>
   loop_body w r k (v0 # vs) p =
     Return (queryParamError w StatusBadRequest ''Invalid query parameter''
               (''Unable to match '' @ (if HasPrefix k ''filter'' then ''filter'' else ''fields'') @
                '' query param '' @ v0))"
  using validateHeader_True [of w r]
  by (cases "validateHeader w r")
     (auto simp: loop_body_def malformed_def index0_def)

lemma loop_body_flags:
  "loop_body w r k v p = Continue p' \<Longrightarrow>
   HasFilters p' = (HasFilters p \<or> HasPrefix k ''filter'') \<and>
   HasFields p' = (HasFields p \<or> (\<not> HasPrefix k ''filter'' \<and> HasPrefix k ''fields'')) \<and>
   HasIncludes p' = (HasIncludes p \<or> k = ''include'')"
  by (cases "validateHeader w r")
     (auto simp: loop_body_def HasPrefix_def split: if_splits option.splits)

lemma range_loop_flags:
  "range_loop w r q p = Continue p' \<Longrightarrow>
   HasFilters p' = (HasFilters p \<or> (\<exists>(k, v) \<in> set q. HasPrefix k ''filter'')) \<and>
   HasFields p' =
     (HasFields p \<or> (\<exists>(k, v) \<in> set q. \<not> HasPrefix k ''filter'' \<and> HasPrefix k ''fields'')) \<and>
   HasIncludes p' = (HasIncludes p \<or> (\<exists>(k, v) \<in> set q. k = ''include''))"
proof (induction q arbitrary: p)
  case Nil
  then show ?case by simp
next
  case (Cons e q)
  obtain k v where e: "e = (k, v)" by (cases e)
  from Cons.prems obtain p1 where p1: "loop_body w r k v p = Continue p1"
    and rest: "range_loop w r q p1 = Continue p'"
    by (auto simp: e split: flow.splits)
  from loop_body_flags [OF p1] Cons.IH [OF rest] show ?case
    by (auto simp: e)
qed

text \<open>
  When the outcome is not a call of the wrapped handler, the result of the middleware
  is the same for every wrapped handler.
\<close>

lemma MiddlewareFn_not_invoked:
  "\<not> invokes_next (newFn w r) \<Longrightarrow> MiddlewareFn fn w r = MiddlewareFn fn' w r"
  by (simp add: MiddlewareFn_def invokes_next_def split: action.splits)

lemma MiddlewareFn_invoked:
  "newFn w r = CallNext w' r' \<Longrightarrow> MiddlewareFn fn w r = fn w' r'"
  by (simp add: MiddlewareFn_def)

section \<open>The claims about the query middleware\<close>






text \<open>
  Claim C5, as amended. When the query has a key that starts with \<^verbatim>\<open>fields\<close> or
  \<^verbatim>\<open>filter\<close> and does not match the bracket pattern, the wrapped handler is not called,
  whatever the order in which the keys are visited. The response is the 400 with the
  title \<^verbatim>\<open>Invalid query parameter\<close> and a detail that ends with the first value of that
  key when the key is the first one to stop the request: every key visited before it is
  well formed (and has a value when it is recognized), and the headers are valid when a
  \<^verbatim>\<open>filter\<close> key is visited up to and including it. The claim as stated, for every
  request with such a key, fails when a \<^verbatim>\<open>filter\<close> key is visited before a malformed
  \<^verbatim>\<open>fields\<close> key and the headers are not valid: the response is then the 406 of the
  header validation (see the evaluation further below).
\<close>

theorem C5_malformed_key_bad_request:
  assumes "(k, v) \<in> set (URL_Query r)" and "malformed k"
  shows "\<not> invokes_next (newFn w r) \<and>
         (\<forall>pre v0 vs post.
            w_status w = None \<and>
            URL_Query r = pre @ (k, v0 # vs) # post \<and>
            list_all (\<lambda>(k', v'). \<not> malformed k' \<and> (recognized k' \<longrightarrow> v' \<noteq> [])) pre \<and>
            (list_ex (\<lambda>(k', v'). HasPrefix k' ''filter'') (pre @ [(k, v0 # vs)]) \<longrightarrow>
               Get (Header r) acceptH = filterMediaType \<and>
               Get (Header r) contentType = filterMediaType) \<longrightarrow>
            newFn w r =
              Respond (queryParamError w StatusBadRequest ''Invalid query parameter''
                         (''Unable to match '' @
                          (if HasPrefix k ''filter'' then ''filter'' else ''fields'') @
                          '' query param '' @ v0)) \<and>
            responded_status (newFn w r) = Some 400 \<and>
            (w_fail w = None \<longrightarrow>
               responded_body (newFn w r) =
                 w_body w @
                 [error_document 400 ''Invalid query parameter''
                    (''Unable to match '' @
                     (if HasPrefix k ''filter'' then ''filter'' else ''fields'') @
                     '' query param '' @ v0)]))"
proof -
  have stop: "\<not> invokes_next (newFn w r)"
    using range_loop_malformed_stops [OF assms, of w r newParams]
    by (auto simp: newFn_def invokes_next_def split: flow.splits)
  show ?thesis
  proof (intro conjI [OF stop] allI impI)
  fix pre v0 vs post
  assume a: "w_status w = None \<and>
            URL_Query r = pre @ (k, v0 # vs) # post \<and>
            list_all (\<lambda>(k', v'). \<not> malformed k' \<and> (recognized k' \<longrightarrow> v' \<noteq> [])) pre \<and>
            (list_ex (\<lambda>(k', v'). HasPrefix k' ''filter'') (pre @ [(k, v0 # vs)]) \<longrightarrow>
               Get (Header r) acceptH = filterMediaType \<and>
               Get (Header r) contentType = filterMediaType)"
  let ?e = "queryParamError w StatusBadRequest ''Invalid query parameter''
              (''Unable to match '' @ (if HasPrefix k ''filter'' then ''filter'' else ''fields'') @
               '' query param '' @ v0)"
  from a have fresh: "w_status w = None" and q: "URL_Query r = pre @ (k, v0 # vs) # post"
    and pre: "\<forall>(k', v') \<in> set pre. \<not> malformed k' \<and> (recognized k' \<longrightarrow> v' \<noteq> [])"
    and hdr: "(\<exists>(k', v') \<in> set pre. HasPrefix k' ''filter'') \<or> HasPrefix k ''filter'' \<longrightarrow>
                snd (validateHeader w r)"
    by (auto simp: list_all_iff list_ex_iff validateHeader_valid)
  from hdr have hpre: "(\<exists>(k', v') \<in> set pre. HasPrefix k' ''filter'') \<longrightarrow> snd (validateHeader w r)"
    and hk: "HasPrefix k ''filter'' \<longrightarrow> snd (validateHeader w r)"
    by blast+
  from range_loop_Continue [OF pre hpre] obtain p1 where
    p1: "range_loop w r pre newParams = Continue p1" by blast
  have "range_loop w r (URL_Query r) newParams = Return ?e"
    unfolding q range_loop_append p1
    by (simp add: loop_body_malformed_Return [OF assms(2) hk])
  then have resp: "newFn w r = Respond ?e"
    by (simp add: newFn_def)
  have st: "responded_status (newFn w r) = Some 400"
    unfolding resp using fresh
    by (simp add: responded_status_def queryParamError_status StatusBadRequest_def)
  have body: "responded_body (newFn w r) =
                 w_body w @
                 [error_document 400 ''Invalid query parameter''
                    (''Unable to match '' @
                     (if HasPrefix k ''filter'' then ''filter'' else ''fields'') @
                     '' query param '' @ v0)]" if "w_fail w = None"
    unfolding resp using fresh that
    by (simp add: responded_body_def queryParamError_body StatusBadRequest_def)
  from resp st body
  show "newFn w r = Respond ?e \<and>
        responded_status (newFn w r) = Some 400 \<and>
        (w_fail w = None \<longrightarrow>
           responded_body (newFn w r) =
             w_body w @
             [error_document 400 ''Invalid query parameter''
                (''Unable to match '' @
                 (if HasPrefix k ''filter'' then ''filter'' else ''fields'') @
                 '' query param '' @ v0)])"
    by blast
  qed
qed

theorem C5_witness:
  "(''fieldsX'', [''title'']) \<in>
     set (URL_Query (request_with [(''include'', [''a'']), (''fieldsX'', [''title''])] [])) \<and>
   malformed ''fieldsX'' \<and>
   \<not> invokes_next
       (newFn fresh_writer (request_with [(''include'', [''a'']), (''fieldsX'', [''title''])] [])) \<and>
   responded_status
       (newFn fresh_writer (request_with [(''include'', [''a'']), (''fieldsX'', [''title''])] []))
     = Some 400 \<and>
   responded_body
       (newFn fresh_writer (request_with [(''include'', [''a'']), (''fieldsX'', [''title''])] []))
     = [error_document 400 ''Invalid query parameter''
          ''Unable to match fields query param title'']"
proof -
  let ?r = "request_with [(''include'', [''a'']), (''fieldsX'', [''title''])] []"
  have h1: "(''fieldsX'', [''title'']) \<in> set (URL_Query ?r)" by (simp add: request_with_def)
  have h2: "malformed ''fieldsX''" by code_simp
  have g1: "w_status fresh_writer = None" by (simp add: fresh_writer_def)
  have g2: "URL_Query ?r = [(''include'', [''a''])] @ (''fieldsX'', ''title'' # []) # []"
    by (simp add: request_with_def)
  have g3: "list_all (\<lambda>(k', v'). \<not> malformed k' \<and> (recognized k' \<longrightarrow> v' \<noteq> []))
              [(''include'', [''a''])]" by code_simp
  have g4: "\<not> list_ex (\<lambda>(k', v'). HasPrefix k' ''filter'')
              ([(''include'', [''a''])] @ [(''fieldsX'', ''title'' # [])])" by code_simp
  have g5: "w_fail fresh_writer = None" "w_body fresh_writer = []"
    by (simp_all add: fresh_writer_def)
  have g6: "\<not> HasPrefix ''fieldsX'' ''filter''" by code_simp
  from C5_malformed_key_bad_request [OF h1 h2, of fresh_writer]
  have "\<not> invokes_next (newFn fresh_writer ?r)"
    and "\<And>pre v0 vs post.
            w_status fresh_writer = None \<and>
            URL_Query ?r = pre @ (''fieldsX'', v0 # vs) # post \<and>
            list_all (\<lambda>(k', v'). \<not> malformed k' \<and> (recognized k' \<longrightarrow> v' \<noteq> [])) pre \<and>
            (list_ex (\<lambda>(k', v'). HasPrefix k' ''filter'') (pre @ [(''fieldsX'', v0 # vs)]) \<longrightarrow>
               Get (Header ?r) acceptH = filterMediaType \<and>
               Get (Header ?r) contentType = filterMediaType) \<Longrightarrow>
            responded_status (newFn fresh_writer ?r) = Some 400 \<and>
            (w_fail fresh_writer = None \<longrightarrow>
               responded_body (newFn fresh_writer ?r) =
                 w_body fresh_writer @
                 [error_document 400 ''Invalid query parameter''
                    (''Unable to match '' @
                     (if HasPrefix ''fieldsX'' ''filter'' then ''filter'' else ''fields'') @
                     '' query param '' @ v0)])"
    by blast+
  from this(1) this(2) [of "[(''include'', [''a''])]" "''title''" "[]" "[]"] g1 g2 g3 g4 g5 g6 h1 h2
  show ?thesis by simp
qed

theorem C5_counterexample:
  "malformed ''fieldsX'' \<and>
   (''fieldsX'', [''t'']) \<in>
     set (URL_Query (request_with [(''filter[a]'', [''b'']), (''fieldsX'', [''t''])] [])) \<and>
   responded_status
     (newFn fresh_writer (request_with [(''filter[a]'', [''b'']), (''fieldsX'', [''t''])] []))
     = Some 406"
  by code_simp

text \<open>
  Claim C7. When the loop over the query ends without an error response (and without a
  panic), the bundle is put into the request context, under the one key
  \<^verbatim>\<open>ContextKeyQueryParams\<close>, exactly when one of the three flags is true, and the wrapped
  handler is called with that request; when the three flags are false the wrapped
  handler is called with the request as it came. A flag is true exactly when the query
  has a recognized key.
\<close>

theorem C7_bundle_attached_iff_flag:
  assumes "range_loop w r (URL_Query r) newParams = Continue p"
  shows "(HasIncludes p \<or> HasFields p \<or> HasFilters p \<longrightarrow>
            newFn w r = CallNext w (r\<lparr>Context := (Context r)(ContextKeyQueryParams \<mapsto> p)\<rparr>) \<and>
            attached_bundle (newFn w r) = Some p \<and>
            MiddlewareFn fn w r =
              fn w (r\<lparr>Context := (Context r)(ContextKeyQueryParams \<mapsto> p)\<rparr>)) \<and>
         (\<not> (HasIncludes p \<or> HasFields p \<or> HasFilters p) \<longrightarrow>
            newFn w r = CallNext w r \<and> MiddlewareFn fn w r = fn w r) \<and>
         ((HasIncludes p \<or> HasFields p \<or> HasFilters p) =
            list_ex (\<lambda>(k, v). recognized k) (URL_Query r))"
proof -
  have flags: "(HasIncludes p \<or> HasFields p \<or> HasFilters p) =
                 list_ex (\<lambda>(k, v). recognized k) (URL_Query r)"
    using range_loop_flags [OF assms]
    by (auto simp: newParams_def recognized_def list_ex_iff)
  show ?thesis
    using assms flags
    by (auto simp: newFn_def MiddlewareFn_def attached_bundle_def)
qed

theorem C7_witness:
  "range_loop fresh_writer (request_with [(''page'', [''2''])] [])
     (URL_Query (request_with [(''page'', [''2''])] [])) newParams = Continue newParams \<and>
   \<not> (HasIncludes newParams \<or> HasFields newParams \<or> HasFilters newParams) \<and>
   newFn fresh_writer (request_with [(''page'', [''2''])] []) =
     CallNext fresh_writer (request_with [(''page'', [''2''])] []) \<and>
   range_loop fresh_writer (request_with [(''include'', [''a,b''])] [])
     (URL_Query (request_with [(''include'', [''a,b''])] [])) newParams =
     Continue (newParams\<lparr>Includes := [''a'', ''b''], HasIncludes := True\<rparr>) \<and>
   attached_bundle (newFn fresh_writer (request_with [(''include'', [''a,b''])] [])) =
     Some (newParams\<lparr>Includes := [''a'', ''b''], HasIncludes := True\<rparr>)"
proof -
  let ?r = "request_with [(''page'', [''2''])] []"
  let ?r' = "request_with [(''include'', [''a,b''])] []"
  let ?p' = "newParams\<lparr>Includes := [''a'', ''b''], HasIncludes := True\<rparr>"
  have h: "range_loop fresh_writer ?r (URL_Query ?r) newParams = Continue newParams"
    by (simp add: request_with_def loop_body_def HasPrefix_def)
  have f: "\<not> (HasIncludes newParams \<or> HasFields newParams \<or> HasFilters newParams)"
    by (simp add: newParams_def)
  have h': "range_loop fresh_writer ?r' (URL_Query ?r') newParams = Continue ?p'"
    by (simp add: request_with_def loop_body_def HasPrefix_def index0_def comma_list_def
                  Contains_def)
  have f': "HasIncludes ?p'" by simp
  from C7_bundle_attached_iff_flag [OF h] f
  have a: "newFn fresh_writer ?r = CallNext fresh_writer ?r" by blast
  from C7_bundle_attached_iff_flag [OF h'] f'
  have b: "attached_bundle (newFn fresh_writer ?r') = Some ?p'" by blast
  from h f a h' b show ?thesis by blast
qed

text \<open>
  Further facts about the loop: the headers are read only for a key that starts with
  \<^verbatim>\<open>filter\<close>; the two branches of the comma test agree with \<^verbatim>\<open>strings.Split\<close>; and a
  \<^verbatim>\<open>filter\<close> key stores its first value under its bracketed name, where it stays until a
  later \<^verbatim>\<open>filter\<close> key with the same bracketed name replaces it.
\<close>

lemma loop_body_no_filter_headers:
  "\<not> HasPrefix k ''filter'' \<Longrightarrow> loop_body w (r\<lparr>Header := h\<rparr>) k v p = loop_body w r k v p"
  by (simp add: loop_body_def)

lemma range_loop_no_filter_headers:
  "\<forall>(k, v) \<in> set q. \<not> HasPrefix k ''filter'' \<Longrightarrow>
   range_loop w (r\<lparr>Header := h\<rparr>) q p = range_loop w r q p"
  by (induction q arbitrary: p) (auto simp: loop_body_no_filter_headers split: flow.splits)

lemma comma_list_eq_Split: "comma_list v = Split v (CHR '','')"
proof -
  have "c \<notin> set s \<Longrightarrow> Split s c = [s]" for s c
    by (induction s) auto
  then show ?thesis
    by (simp add: comma_list_def Contains_def)
qed

lemma FindStringSubmatch_Some:
  "bracket_sub k = Some sub \<Longrightarrow> FindStringSubmatch k = Some [k, sub]"
  by (simp add: FindStringSubmatch_def)

lemma loop_body_filter_store:
  "loop_body w r k (v0 # vs) p = Continue p' \<Longrightarrow> HasPrefix k ''filter'' \<Longrightarrow>
   bracket_sub k = Some sub \<Longrightarrow> Filters p' sub = Some v0"
  by (cases "validateHeader w r")
     (auto simp: loop_body_def FindStringSubmatch_Some index0_def split: if_splits)

lemma loop_body_filters_keep:
  "loop_body w r k v p = Continue p' \<Longrightarrow>
   HasPrefix k ''filter'' \<longrightarrow> bracket_sub k \<noteq> Some sub \<Longrightarrow>
   Filters p' sub = Filters p sub"
  by (cases "validateHeader w r")
     (auto simp: loop_body_def FindStringSubmatch_def split: if_splits option.splits)

lemma range_loop_filters_keep:
  "range_loop w r q p = Continue p' \<Longrightarrow>
   \<forall>(k, v) \<in> set q. HasPrefix k ''filter'' \<longrightarrow> bracket_sub k \<noteq> Some sub \<Longrightarrow>
   Filters p' sub = Filters p sub"
proof (induction q arbitrary: p)
  case Nil
  then show ?case by simp
next
  case (Cons e q)
  obtain k v where e: "e = (k, v)" by (cases e)
  from Cons.prems(1) obtain p1 where p1: "loop_body w r k v p = Continue p1"
    and rest: "range_loop w r q p1 = Continue p'"
    by (auto simp: e split: flow.splits)
  from Cons.prems(2) have "HasPrefix k ''filter'' \<longrightarrow> bracket_sub k \<noteq> Some sub"
    and "\<forall>(k, v) \<in> set q. HasPrefix k ''filter'' \<longrightarrow> bracket_sub k \<noteq> Some sub"
    by (auto simp: e)
  with loop_body_filters_keep [OF p1] Cons.IH [OF rest] show ?case by simp
qed

text \<open>
  The query \<^verbatim>\<open>?filter[name]=foo\<close> goes through when the \<^verbatim>\<open>Accept\<close> and the
  \<^verbatim>\<open>Content-Type\<close> header both equal the constant \<^verbatim>\<open>filterMediaType\<close> of the package,
  the Go-quoted text: the bundle then has \<^verbatim>\<open>Filters["name"] = "foo"\<close> and
  \<^verbatim>\<open>HasFilters = true\<close> and the wrapped handler is called with it.
\<close>

lemma filter_request_with_quoted_constant:
  assumes "URL_Query r = [(''filter[name]'', [''foo''])]"
    and "Get (Header r) acceptH = filterMediaType"
    and "Get (Header r) contentType = filterMediaType"
  shows "newFn w r =
           CallNext w (r\<lparr>Context := (Context r)(ContextKeyQueryParams \<mapsto>
                          newParams\<lparr>Filters := [''name'' \<mapsto> ''foo''], HasFilters := True\<rparr>)\<rparr>) \<and>
         attached_filter (newFn w r) ''name'' = Some ''foo'' \<and>
         map_option HasFilters (attached_bundle (newFn w r)) = Some True \<and>
         MiddlewareFn fn w r =
           fn w (r\<lparr>Context := (Context r)(ContextKeyQueryParams \<mapsto>
                    newParams\<lparr>Filters := [''name'' \<mapsto> ''foo''], HasFilters := True\<rparr>)\<rparr>)"
proof -
  have pre: "HasPrefix ''filter[name]'' ''filter''" by code_simp
  have sub: "FindStringSubmatch ''filter[name]'' = Some [''filter[name]'', ''name'']"
    by code_simp
  have loop: "range_loop w r (URL_Query r) newParams =
                Continue (newParams\<lparr>Filters := [''name'' \<mapsto> ''foo''], HasFilters := True\<rparr>)"
    unfolding assms(1)
    by (simp add: loop_body_def pre sub validateHeader_valid [OF assms(2,3)] index0_def
                  newParams_def)
  show ?thesis
    by (simp add: newFn_def MiddlewareFn_def loop attached_filter_def attached_bundle_def)
qed

text \<open>
  Claim C4 says that the query \<^verbatim>\<open>?filter[name]=foo\<close>, with the \<^verbatim>\<open>Accept\<close> and the
  \<^verbatim>\<open>Content-Type\<close> header both equal to the required filtering media type, gives a
  bundle with \<^verbatim>\<open>Filters["name"] = "foo"\<close> and \<^verbatim>\<open>HasFilters = true\<close> that reaches the
  wrapped handler. The required media type is \<^verbatim>\<open>application/vnd.api+json\<close> with the
  parameter \<^verbatim>\<open>supported-ext="dictybase/filtering-resouce"\<close>; the package compares the
  \<^verbatim>\<open>Accept\<close> header with the Go-quoted form of that text. Evaluated on the request of
  the claim, both headers being the media type as documented: the response is 406, the
  wrapped handler is not called, and no bundle with a filter \<^verbatim>\<open>name\<close> exists.
\<close>

theorem C4_documented_headers_no_bundle:
  "URL_Query (request_with [(''filter[name]'', [''foo''])]
               [(''Accept'', documented_media_type), (''Content-Type'', documented_media_type)])
     = [(''filter[name]'', [''foo''])] \<and>
   Get (Header (request_with [(''filter[name]'', [''foo''])]
               [(''Accept'', documented_media_type), (''Content-Type'', documented_media_type)]))
       acceptH
     = documented_media_type \<and>
   Get (Header (request_with [(''filter[name]'', [''foo''])]
               [(''Accept'', documented_media_type), (''Content-Type'', documented_media_type)]))
       contentType
     = documented_media_type \<and>
   responded_status
     (newFn fresh_writer (request_with [(''filter[name]'', [''foo''])]
               [(''Accept'', documented_media_type), (''Content-Type'', documented_media_type)]))
     = Some 406 \<and>
   \<not> invokes_next
     (newFn fresh_writer (request_with [(''filter[name]'', [''foo''])]
               [(''Accept'', documented_media_type), (''Content-Type'', documented_media_type)])) \<and>
   attached_bundle
     (newFn fresh_writer (request_with [(''filter[name]'', [''foo''])]
               [(''Accept'', documented_media_type), (''Content-Type'', documented_media_type)]))
     = None \<and>
   attached_filter
     (newFn fresh_writer (request_with [(''filter[name]'', [''foo''])]
               [(''Accept'', documented_media_type), (''Content-Type'', documented_media_type)]))
       ''name''
     = None"
proof -
  let ?r = "request_with [(''filter[name]'', [''foo''])]
               [(''Accept'', documented_media_type), (''Content-Type'', documented_media_type)]"
  have q: "URL_Query ?r = [(''filter[name]'', [''foo''])]"
    by (simp add: request_with_def)
  have a: "Get (Header ?r) acceptH = documented_media_type"
    by (simp add: request_with_def Get_def acceptH_eq canonical_Accept)
  have c: "Get (Header ?r) contentType = documented_media_type"
    by (simp add: request_with_def Get_def contentType_eq canonical_Content_Type)
  have ne: "Get (Header ?r) acceptH \<noteq> filterMediaType"
    unfolding a using filterMediaType_not_documented by simp
  have pre: "HasPrefix ''filter[name]'' ''filter''"
    by (simp add: HasPrefix_def)
  have loop: "range_loop fresh_writer ?r [(''filter[name]'', [''foo''])] newParams =
                Return (fst (validateHeader fresh_writer ?r))"
    using ne by (simp add: loop_body_filter_invalid [OF pre] validateHeader_wrong_accept)
  have act: "newFn fresh_writer ?r = Respond (fst (validateHeader fresh_writer ?r))"
    unfolding newFn_def q loop by simp
  have st: "w_status (fst (validateHeader fresh_writer ?r)) = Some 406"
    using ne
    by (simp add: validateHeader_wrong_accept queryParamError_status StatusNotAcceptable_def
                  fresh_writer_def)
  show ?thesis
    unfolding act
    using q a c st
    by (simp add: responded_status_def invokes_next_def attached_bundle_def attached_filter_def)
qed

text \<open>
  Claim C9. For the query \<^verbatim>\<open>?fields[articles]=title,body\<close>, with no \<^verbatim>\<open>filter\<close> key, the
  bundle has \<^verbatim>\<open>Fields["articles"] = [title, body]\<close> and \<^verbatim>\<open>HasFields = true\<close> and the
  wrapped handler is called with it, whatever the headers \<open>h\<close> of the request are: the
  \<^verbatim>\<open>Accept\<close> and \<^verbatim>\<open>Content-Type\<close> headers are not validated.
\<close>

theorem C9_fields_without_header_validation:
  assumes "URL_Query r = [(''fields[articles]'', [''title,body''])]"
  shows "newFn w (r\<lparr>Header := h\<rparr>) =
           CallNext w (r\<lparr>Header := h, Context := (Context r)(ContextKeyQueryParams \<mapsto>
                          newParams\<lparr>Fields := [''articles'' \<mapsto> [''title'', ''body'']],
                                     HasFields := True\<rparr>)\<rparr>) \<and>
         map_option (\<lambda>p. Fields p ''articles'') (attached_bundle (newFn w (r\<lparr>Header := h\<rparr>)))
           = Some (Some [''title'', ''body'']) \<and>
         map_option HasFields (attached_bundle (newFn w (r\<lparr>Header := h\<rparr>))) = Some True"
proof -
  have pre: "\<not> HasPrefix ''fields[articles]'' ''filter''" "HasPrefix ''fields[articles]'' ''fields''"
    by code_simp+
  have sub: "FindStringSubmatch ''fields[articles]'' = Some [''fields[articles]'', ''articles'']"
    by code_simp
  have split: "comma_list ''title,body'' = [''title'', ''body'']"
    by code_simp
  have loop: "range_loop w (r\<lparr>Header := h\<rparr>) [(''fields[articles]'', [''title,body''])] newParams =
                Continue (newParams\<lparr>Fields := [''articles'' \<mapsto> [''title'', ''body'']],
                                    HasFields := True\<rparr>)"
    by (simp add: loop_body_def pre sub split index0_def newParams_def)
  have q: "URL_Query (r\<lparr>Header := h\<rparr>) = [(''fields[articles]'', [''title,body''])]"
    using assms by simp
  have "newFn w (r\<lparr>Header := h\<rparr>) =
           CallNext w (r\<lparr>Header := h, Context := (Context r)(ContextKeyQueryParams \<mapsto>
                          newParams\<lparr>Fields := [''articles'' \<mapsto> [''title'', ''body'']],
                                     HasFields := True\<rparr>)\<rparr>)"
    unfolding newFn_def q loop by simp
  then show ?thesis
    by (simp add: attached_bundle_def)
qed

theorem C9_witness:
  "URL_Query (request_with [(''fields[articles]'', [''title,body''])] [])
     = [(''fields[articles]'', [''title,body''])] \<and>
   map_option (\<lambda>p. Fields p ''articles'')
     (attached_bundle
        (newFn fresh_writer
           ((request_with [(''fields[articles]'', [''title,body''])] [])
              \<lparr>Header := (\<lambda>k. [''text/html''])\<rparr>)))
     = Some (Some [''title'', ''body''])"
proof -
  let ?r = "request_with [(''fields[articles]'', [''title,body''])] []"
  have h1: "URL_Query ?r = [(''fields[articles]'', [''title,body''])]"
    by (simp add: request_with_def)
  from C9_fields_without_header_validation [OF h1, of fresh_writer "\<lambda>k. [''text/html'']"] h1
  show ?thesis by blast
qed

text \<open>
  Claim C10, as amended. The value of a well-formed \<^verbatim>\<open>filter\<close> key is stored as it is,
  never split on commas: when the request reaches the wrapped handler, the bundle maps
  the bracketed name of the key to the first value of the key, provided that no
  \<^verbatim>\<open>filter\<close> key with the same bracketed name is visited after it. The claim as stated,
  for every well-formed \<^verbatim>\<open>filter\<close> key, fails for two keys with the same bracketed name,
  such as \<^verbatim>\<open>filter[name]\<close> and \<^verbatim>\<open>filters[name]\<close>: the value of the key visited last is
  the one in the bundle (see the evaluation further below).
\<close>

theorem C10_filter_value_verbatim:
  assumes "URL_Query r = pre @ (k, v0 # vs) # post"
    and "HasPrefix k ''filter''"
    and "bracket_sub k = Some sub"
    and "list_all (\<lambda>(k', v'). \<not> (HasPrefix k' ''filter'' \<and> bracket_sub k' = Some sub)) post"
    and "invokes_next (newFn w r)"
  shows "attached_filter (newFn w r) sub = Some v0"
proof -
  from assms(5) obtain p where p: "range_loop w r (URL_Query r) newParams = Continue p"
    by (auto simp: newFn_def invokes_next_def split: flow.splits)
  from p obtain p1 p2 where p1: "range_loop w r pre newParams = Continue p1"
    and p2: "loop_body w r k (v0 # vs) p1 = Continue p2"
    and p3: "range_loop w r post p2 = Continue p"
    unfolding assms(1) range_loop_append
    by (auto split: flow.splits)
  from assms(4) have "\<forall>(k', v') \<in> set post. HasPrefix k' ''filter'' \<longrightarrow> bracket_sub k' \<noteq> Some sub"
    by (auto simp: list_all_iff)
  from range_loop_filters_keep [OF p3 this] loop_body_filter_store [OF p2 assms(2,3)]
  have val: "Filters p sub = Some v0" by simp
  from range_loop_flags [OF p] assms(1,2) have "HasFilters p" by auto
  with p val show ?thesis
    by (simp add: newFn_def attached_filter_def attached_bundle_def)
qed

theorem C10_witness:
  "URL_Query (request_with [(''filter[name]'', [''a,b'']), (''include'', [''x,y''])]
               [(''Accept'', filterMediaType), (''Content-Type'', filterMediaType)])
     = [] @ (''filter[name]'', ''a,b'' # []) # [(''include'', [''x,y''])] \<and>
   HasPrefix ''filter[name]'' ''filter'' \<and>
   bracket_sub ''filter[name]'' = Some ''name'' \<and>
   list_all (\<lambda>(k', v'). \<not> (HasPrefix k' ''filter'' \<and> bracket_sub k' = Some ''name''))
     [(''include'', [''x,y''])] \<and>
   invokes_next
     (newFn fresh_writer (request_with [(''filter[name]'', [''a,b'']), (''include'', [''x,y''])]
               [(''Accept'', filterMediaType), (''Content-Type'', filterMediaType)])) \<and>
   attached_filter
     (newFn fresh_writer (request_with [(''filter[name]'', [''a,b'']), (''include'', [''x,y''])]
               [(''Accept'', filterMediaType), (''Content-Type'', filterMediaType)])) ''name''
     = Some ''a,b''"
proof -
  let ?r = "request_with [(''filter[name]'', [''a,b'']), (''include'', [''x,y''])]
               [(''Accept'', filterMediaType), (''Content-Type'', filterMediaType)]"
  have h1: "URL_Query ?r = [] @ (''filter[name]'', ''a,b'' # []) # [(''include'', [''x,y''])]"
    by (simp add: request_with_def)
  have h2: "HasPrefix ''filter[name]'' ''filter''" by code_simp
  have h3: "bracket_sub ''filter[name]'' = Some ''name''" by code_simp
  have h4: "list_all (\<lambda>(k', v'). \<not> (HasPrefix k' ''filter'' \<and> bracket_sub k' = Some ''name''))
              [(''include'', [''x,y''])]" by code_simp
  have h5: "invokes_next (newFn fresh_writer ?r)" by code_simp
  from C10_filter_value_verbatim [OF h1 h2 h3 h4 h5] h1 h2 h3 h4 h5
  show ?thesis by blast
qed

theorem C10_counterexample:
  "HasPrefix ''filter[name]'' ''filter'' \<and>
   bracket_sub ''filter[name]'' = Some ''name'' \<and>
   invokes_next
     (newFn fresh_writer (request_with [(''filter[name]'', [''a,b'']), (''filters[name]'', [''c''])]
               [(''Accept'', filterMediaType), (''Content-Type'', filterMediaType)])) \<and>
   attached_filter
     (newFn fresh_writer (request_with [(''filter[name]'', [''a,b'']), (''filters[name]'', [''c''])]
               [(''Accept'', filterMediaType), (''Content-Type'', filterMediaType)])) ''name''
     = Some ''c''"
  by code_simp

text \<open>
  Claim C1 names the media type \<^verbatim>\<open>application/vnd.api+json\<close> with the parameter
  \<^verbatim>\<open>supported-ext="dictybase/filtering-resouce"\<close>, with no quotation marks around the
  whole, as the text the \<^verbatim>\<open>Accept\<close> header is compared with. The package compares with
  \<^verbatim>\<open>filterMediaType\<close>, which is \<^verbatim>\<open>strconv.Quote\<close> of that text: it begins and ends with
  a double quote and has a backslash before each inner double quote
  (\<open>filterMediaType_eq\<close>). Evaluated on the request \<^verbatim>\<open>?filter[name]=foo\<close> whose
  \<^verbatim>\<open>Accept\<close> and \<^verbatim>\<open>Content-Type\<close> headers are the media type as documented: the header
  validation fails and the response is 406.
\<close>

theorem C1_documented_media_type_not_accepted:
  "filterMediaType \<noteq> documented_media_type \<and>
   \<not> snd (validateHeader fresh_writer
            (request_with [(''filter[name]'', [''foo''])]
               [(''Accept'', documented_media_type), (''Content-Type'', documented_media_type)])) \<and>
   responded_status
     (newFn fresh_writer
        (request_with [(''filter[name]'', [''foo''])]
           [(''Accept'', documented_media_type), (''Content-Type'', documented_media_type)]))
     = Some 406"
  by code_simp

text \<open>
  Claim C6 says that when the error document cannot be encoded, a plain-text 500
  response with the message of the encoding error is written instead. The function
  calls \<^verbatim>\<open>http.Error\<close> after \<^verbatim>\<open>WriteHeader(status)\<close>: the status and the header with the
  JSON-API content type are sent already, so the second \<^verbatim>\<open>WriteHeader\<close> has no effect.
  Evaluated on a writer whose writes fail, for the 400 of a malformed \<^verbatim>\<open>fields\<close> key:
  the status stays 400, the content type sent stays \<^verbatim>\<open>application/vnd.api+json\<close>, and
  nothing reaches the body. (With a writer whose writes succeed the response is the one
  the claim describes: \<open>queryParamError_status\<close>, \<open>queryParamError_sent\<close>,
  \<open>queryParamError_body\<close>.)
\<close>

theorem C6_fallback_after_header_written:
  "w_status (queryParamError (fresh_writer\<lparr>w_fail := Some ''broken pipe''\<rparr>)
              StatusBadRequest ''Invalid query parameter'' ''Unable to match fields query param t'')
     = Some 400 \<and>
   w_sent (queryParamError (fresh_writer\<lparr>w_fail := Some ''broken pipe''\<rparr>)
              StatusBadRequest ''Invalid query parameter'' ''Unable to match fields query param t'')
          ''Content-Type''
     = Some ''application/vnd.api+json'' \<and>
   w_body (queryParamError (fresh_writer\<lparr>w_fail := Some ''broken pipe''\<rparr>)
              StatusBadRequest ''Invalid query parameter'' ''Unable to match fields query param t'')
     = []"
proof -
  have "w_status (fresh_writer\<lparr>w_fail := Some ''broken pipe''\<rparr>) = None"
    and "w_fail (fresh_writer\<lparr>w_fail := Some ''broken pipe''\<rparr>) = Some ''broken pipe''"
    and "w_body (fresh_writer\<lparr>w_fail := Some ''broken pipe''\<rparr>) = []"
    by (simp_all add: fresh_writer_def)
  from queryParamError_failed_write [OF this(1,2)] this(3) show ?thesis
    by (simp add: StatusBadRequest_def)
qed

section \<open>The claim about the cache middleware\<close>

lemma canonical_Cache_Control: "CanonicalHeaderKey ''Cache-Control'' = ''Cache-Control''"
  by code_simp

lemma canonical_Expires: "CanonicalHeaderKey ''Expires'' = ''Expires''"
  by code_simp

lemma NewHTTPCache_Expires: "Expires (NewHTTPCache day t) = Format_TimeFormat t"
  by (simp add: NewHTTPCache_def)

lemma NewHTTPCache_MaxAge: "MaxAge (NewHTTPCache day t) = Seconds (Hour * 24 * 30 * day)"
  by (simp add: NewHTTPCache_def)

lemma Handler_headers:
  "Handler c next w r =
     next (w\<lparr>w_header := (w_header w)(''Cache-Control'' \<mapsto> ''public, max-age='' @ Itoa (MaxAge c),
                                        ''Expires'' \<mapsto> Expires c)\<rparr>) r"
  by (simp add: Handler_def Header_Set_def canonical_Cache_Control canonical_Expires)

lemma thirty_days_seconds: "Seconds (Hour * 24 * 30 * 1) = 2592000"
  by (simp add: Seconds_def Hour_def)

lemma NewHTTPCache_day_30: "MaxAge (NewHTTPCache 30 t) = 77760000"
  by (simp add: NewHTTPCache_def Seconds_def Hour_def)


lemma Format_epoch: "Format_TimeFormat 0 = ''Thu, 01 Jan 1970 00:00:00 GMT''"
  by code_simp

lemma Format_epoch_plus_30_days: "Format_TimeFormat 2592000 = ''Sat, 31 Jan 1970 00:00:00 GMT''"
  by code_simp

lemma Itoa_2592000: "Itoa 2592000 = ''2592000''"
  by (simp add: Itoa_def digit_char_def)

text \<open>
  Claim C2 says that, for a duration of 30 days and a reference time \<open>T\<close>, the handler
  sets \<^verbatim>\<open>Cache-Control\<close> to \<^verbatim>\<open>public, max-age=2592000\<close> and \<^verbatim>\<open>Expires\<close> to \<open>T\<close> plus 30
  days in the HTTP format. The constructor computes the duration as 30 days times
  \<^verbatim>\<open>day\<close>, so \<^verbatim>\<open>day = 1\<close> gives the 30 days, and it formats \<open>t\<close> itself for \<^verbatim>\<open>Expires\<close>:
  the duration is not added. Evaluated at \<^verbatim>\<open>day = 1\<close> and \<open>T\<close> the Unix epoch: the
  \<^verbatim>\<open>max-age\<close> is 2592000, and \<^verbatim>\<open>Expires\<close> is 1 January 1970, where \<open>T\<close> plus the duration
  is 31 January 1970.
\<close>

theorem C2_expires_is_the_given_time:
  "MaxAge (NewHTTPCache 1 0) = 2592000 \<and>
   Expires (NewHTTPCache 1 0) = ''Thu, 01 Jan 1970 00:00:00 GMT'' \<and>
   Format_TimeFormat (Add 0 (Hour * 24 * 30 * 1)) = ''Sat, 31 Jan 1970 00:00:00 GMT'' \<and>
   Handler (NewHTTPCache 1 0) next w r =
     next (w\<lparr>w_header := (w_header w)(''Cache-Control'' \<mapsto> ''public, max-age=2592000'',
                                        ''Expires'' \<mapsto> ''Thu, 01 Jan 1970 00:00:00 GMT'')\<rparr>) r"
proof -
  have a: "MaxAge (NewHTTPCache 1 0) = 2592000"
    unfolding NewHTTPCache_MaxAge by (rule thirty_days_seconds)
  have b: "Expires (NewHTTPCache 1 0) = ''Thu, 01 Jan 1970 00:00:00 GMT''"
    unfolding NewHTTPCache_Expires by (rule Format_epoch)
  have "Add 0 (Hour * 24 * 30 * 1) = 2592000"
    unfolding Add_def thirty_days_seconds by simp
  then have c: "Format_TimeFormat (Add 0 (Hour * 24 * 30 * 1)) = ''Sat, 31 Jan 1970 00:00:00 GMT''"
    by (simp only: Format_epoch_plus_30_days)
  show ?thesis
    unfolding Handler_headers a b c Itoa_2592000 by simp
qed

end
